theory Spec2Isabelle
  imports Main "HOL-Library.AList"
begin

section \<open>JavaScript values and objects\<close>

text \<open>
  The request bodies and the stored collections of \<^verbatim>\<open>server.js\<close> are JSON documents.
  A field value is modelled by \<open>jsval\<close>: the JSON scalars, together with the two values
  that only exist in memory, \<^verbatim>\<open>undefined\<close> (a missing property) and \<^verbatim>\<open>NaN\<close>.
  Numbers are the integers; a string is a list of 8-bit code units. Nested arrays and
  objects as field values are not modelled.

  An object is the association list of its own properties, in insertion order. Defining
  a property is \<open>AList.update\<close> (an existing key keeps its place, a new key goes
  last) and the \<^verbatim>\<open>delete\<close> operator is \<open>AList.delete\<close>. The numeric ordering of
  index-like keys is not modelled.
\<close>

datatype jsval = JUndefined | JNull | JBool bool | JNum int | JNaN | JStr string

type_synonym obj = "(string \<times> jsval) list"

definition get_prop :: "obj \<Rightarrow> string \<Rightarrow> jsval" where
  "get_prop ob k = (case map_of ob k of None \<Rightarrow> JUndefined | Some v \<Rightarrow> v)"

text \<open>
  A read of a key that the object does not own falls back on \<^verbatim>\<open>Object.prototype\<close>.
  The field names read with \<open>get_prop\<close> (\<^verbatim>\<open>id\<close>, \<^verbatim>\<open>name\<close>, \<^verbatim>\<open>date\<close>,
  \<^verbatim>\<open>time\<close>, \<^verbatim>\<open>weight\<close>, \<^verbatim>\<open>size\<close>) are not among its properties, so a missing
  field reads as \<^verbatim>\<open>undefined\<close>. The keys of the vote ledger are client addresses
  taken from the request, so the ledger is read with \<open>read_prop\<close>, which tells an own
  property from an inherited one. Every property of the prototype is a function or, for
  \<^verbatim>\<open>__proto__\<close>, the prototype object itself.
\<close>

definition proto_keys :: "string list" where
  "proto_keys =
     [''constructor'', ''__defineGetter__'', ''__defineSetter__'', ''hasOwnProperty'',
      ''__lookupGetter__'', ''__lookupSetter__'', ''isPrototypeOf'', ''propertyIsEnumerable'',
      ''toString'', ''valueOf'', ''__proto__'', ''toLocaleString'']"

datatype prop_read = Own jsval | Inherited | Absent

definition read_prop :: "obj \<Rightarrow> string \<Rightarrow> prop_read" where
  "read_prop ob k =
     (case map_of ob k of
        Some v \<Rightarrow> Own v
      | None \<Rightarrow> if k \<in> set proto_keys then Inherited else Absent)"

text \<open>
  The assignment \<^verbatim>\<open>ob[k] = v\<close> of a string \<open>v\<close>. The prototype's properties are
  writable data properties, which the assignment shadows with an own property, except
  \<^verbatim>\<open>__proto__\<close>: it is an accessor whose setter ignores a string, so the assignment
  stores nothing unless the object owns a property of that name (as an object parsed from
  JSON text with that key does). The handlers assign strings only.
\<close>

definition set_prop :: "string \<Rightarrow> jsval \<Rightarrow> obj \<Rightarrow> obj" where
  "set_prop k v ob =
     (if k = ''__proto__'' \<and> map_of ob k = None then ob else AList.update k v ob)"

text \<open>Truthiness, as used by \<^verbatim>\<open>!x\<close>, \<^verbatim>\<open>x || y\<close> and \<^verbatim>\<open>if (x)\<close>.\<close>

fun truthy :: "jsval \<Rightarrow> bool" where
  "truthy JUndefined = False"
| "truthy JNull = False"
| "truthy (JBool b) = b"
| "truthy (JNum n) = (n \<noteq> 0)"
| "truthy JNaN = False"
| "truthy (JStr s) = (s \<noteq> [])"

text \<open>An inherited value is an object or a function: truthy, and equal to no string.\<close>

fun truthy_read :: "prop_read \<Rightarrow> bool" where
  "truthy_read (Own v) = truthy v"
| "truthy_read Inherited = True"
| "truthy_read Absent = False"

text \<open>\<^verbatim>\<open>x || d\<close> on values, and \<^verbatim>\<open>(n || 0)\<close> on a numeric counter.\<close>

definition or_else :: "jsval \<Rightarrow> jsval \<Rightarrow> jsval" where
  "or_else x d = (if truthy x then x else d)"

definition or_zero :: "int \<Rightarrow> int" where
  "or_zero n = (if n \<noteq> 0 then n else 0)"

text \<open>
  \<^verbatim>\<open>JSON.stringify\<close> on an object, as \<^verbatim>\<open>res.json\<close> and the store writers apply it:
  a property whose value is \<^verbatim>\<open>undefined\<close> is left out, \<^verbatim>\<open>NaN\<close> is written as
  \<^verbatim>\<open>null\<close>.
\<close>

definition stringify_val :: "jsval \<Rightarrow> jsval" where
  "stringify_val v = (if v = JNaN then JNull else v)"

definition stringify_obj :: "obj \<Rightarrow> obj" where
  "stringify_obj ob = map (\<lambda>(k, v). (k, stringify_val v)) (filter (\<lambda>(k, v). v \<noteq> JUndefined) ob)"

definition stringify_list :: "obj list \<Rightarrow> obj list" where
  "stringify_list obs = map stringify_obj obs"

text \<open>The reply of a handler: \<^verbatim>\<open>res.status(c).json(x)\<close>, with 200 the default status.\<close>

datatype 'a reply = Json (status: nat) 'a | Fail (status: nat) string

definition success :: obj where
  "success = [(''success'', JBool True)]"

section \<open>Sanitizer\<close>

text \<open>
  \<^verbatim>\<open>const sanitize = (str) => {
    if (typeof str !== 'string') return str;
    return str.replace(/</g, '&lt;').replace(/>/g, '&gt;').trim(); };\<close>
  The white space of \<^verbatim>\<open>trim\<close> within 8-bit code units: TAB, LF, VT, FF, CR, space
  and the no-break space.
\<close>

definition is_ws :: "char \<Rightarrow> bool" where
  "is_ws c = (c \<in> set [CHR 0x09, CHR 0x0A, CHR 0x0B, CHR 0x0C, CHR 0x0D, CHR '' '', CHR 0xA0])"

definition trim :: "string \<Rightarrow> string" where
  "trim s = rev (dropWhile is_ws (rev (dropWhile is_ws s)))"

definition escape_angle :: "string \<Rightarrow> string" where
  "escape_angle s =
     concat (map (\<lambda>c. if c = CHR ''<'' then ''&lt;'' else if c = CHR ''>'' then ''&gt;'' else [c]) s)"

fun sanitize :: "jsval \<Rightarrow> jsval" where
  "sanitize (JStr s) = JStr (trim (escape_angle s))"
| "sanitize v = v"

section \<open>\<^verbatim>\<open>parseInt\<close>\<close>

text \<open>
  \<^verbatim>\<open>parseInt(v)\<close> with no radix: the argument is converted to a string, leading white
  space is skipped, an optional sign is read, a prefix \<^verbatim>\<open>0x\<close> or \<^verbatim>\<open>0X\<close> selects
  radix 16 (radix 10 otherwise), and the longest prefix of digits of that radix is the
  value; with no digit the result is \<^verbatim>\<open>NaN\<close>. The string of an integer number is
  its decimal expansion (true below \<open>10\<^sup>2\<^sup>1\<close> in magnitude), and the value returned is
  the mathematical one (JavaScript rounds it to a double above \<open>2\<^sup>5\<^sup>3\<close>).
\<close>

fun digits :: "nat \<Rightarrow> string" where
  "digits n = (if n < 10 then [''0123456789'' ! n]
               else digits (n div 10) @ [''0123456789'' ! (n mod 10)])"

declare digits.simps [simp del]

fun to_string :: "jsval \<Rightarrow> string" where
  "to_string JUndefined = ''undefined''"
| "to_string JNull = ''null''"
| "to_string (JBool b) = (if b then ''true'' else ''false'')"
| "to_string (JNum n) = (if n < 0 then CHR ''-'' # digits (nat (- n)) else digits (nat n))"
| "to_string JNaN = ''NaN''"
| "to_string (JStr s) = s"

definition digit_value :: "char \<Rightarrow> nat option" where
  "digit_value = map_of
     [(CHR ''0'', 0), (CHR ''1'', 1), (CHR ''2'', 2), (CHR ''3'', 3), (CHR ''4'', 4),
      (CHR ''5'', 5), (CHR ''6'', 6), (CHR ''7'', 7), (CHR ''8'', 8), (CHR ''9'', 9),
      (CHR ''a'', 10), (CHR ''b'', 11), (CHR ''c'', 12), (CHR ''d'', 13), (CHR ''e'', 14),
      (CHR ''f'', 15), (CHR ''A'', 10), (CHR ''B'', 11), (CHR ''C'', 12), (CHR ''D'', 13),
      (CHR ''E'', 14), (CHR ''F'', 15)]"

definition is_digit :: "nat \<Rightarrow> char \<Rightarrow> bool" where
  "is_digit radix c = (case digit_value c of None \<Rightarrow> False | Some d \<Rightarrow> d < radix)"

definition digits_value :: "nat \<Rightarrow> string \<Rightarrow> nat" where
  "digits_value radix ds = foldl (\<lambda>acc c. acc * radix + the (digit_value c)) 0 ds"

definition parseInt :: "jsval \<Rightarrow> jsval" where
  "parseInt v =
     (let s = dropWhile is_ws (to_string v);
          sign = (if take 1 s = ''-'' then - 1 else (1::int));
          s1 = (if take 1 s = ''-'' \<or> take 1 s = ''+'' then drop 1 s else s);
          radix = (if take 2 s1 = ''0x'' \<or> take 2 s1 = ''0X'' then 16 else (10::nat));
          s2 = (if radix = 16 then drop 2 s1 else s1);
          ds = takeWhile (is_digit radix) s2
      in if ds = [] then JNaN else JNum (sign * int (digits_value radix ds)))"

section \<open>Names and the vote ledger\<close>

text \<open>
  A name record is \<^verbatim>\<open>{ id, name, votes, dislikes, votedIPs }\<close>. The ledger
  \<^verbatim>\<open>votedIPs\<close> has three shapes in stored data: absent, an array of addresses (written by
  \<^verbatim>\<open>POST /api/names\<close> and by the earlier vote handler), or an object from address to
  the recorded choice (written by the current vote handler).
\<close>

datatype voted_ips = Missing | Legacy "string list" | Mapping obj

record name_entry =
  id_of :: string
  name_of :: jsval
  votes :: int
  dislikes :: int
  votedIPs :: voted_ips

text \<open>The in-place mutation of the element that \<^verbatim>\<open>Array.prototype.find\<close> returned.\<close>

fun update_first :: "('a \<Rightarrow> bool) \<Rightarrow> ('a \<Rightarrow> 'a) \<Rightarrow> 'a list \<Rightarrow> 'a list" where
  "update_first P f [] = []"
| "update_first P f (x # xs) = (if P x then f x # xs else x # update_first P f xs)"

text \<open>
  \<^verbatim>\<open>POST /api/names\<close>; \<open>now\<close> is \<^verbatim>\<open>Date.now().toString()\<close>. The length of a value
  that is not a string is \<^verbatim>\<open>undefined\<close>, which is not greater than 50.
\<close>

definition too_long :: "jsval \<Rightarrow> nat \<Rightarrow> bool" where
  "too_long v n = (case v of JStr s \<Rightarrow> length s > n | _ \<Rightarrow> False)"

definition add_name :: "string \<Rightarrow> jsval \<Rightarrow> name_entry list \<Rightarrow> name_entry reply \<times> name_entry list" where
  "add_name now name names =
     (if \<not> truthy name then (Fail 400 ''Name required'', names)
      else if too_long name 50 then (Fail 400 ''Name too long (max 50 chars)'', names)
      else
        let newName = \<lparr>id_of = now, name_of = sanitize name, votes = 0, dislikes = 0,
                       votedIPs = Legacy []\<rparr>
        in (Json 201 newName, names @ [newName]))"

text \<open>\<^verbatim>\<open>DELETE /api/names/:id\<close>; \<open>pin\<close> is the header \<^verbatim>\<open>x-admin-pin\<close>.\<close>

definition delete_name :: "string \<Rightarrow> string option \<Rightarrow> string \<Rightarrow> name_entry list \<Rightarrow> obj reply \<times> name_entry list" where
  "delete_name ADMIN_PIN pin ident names =
     (if pin \<noteq> Some ADMIN_PIN then (Fail 401 ''Unauthorized'', names)
      else (Json 200 success, filter (\<lambda>n. id_of n \<noteq> ident) names))"

text \<open>\<^verbatim>\<open>const clientIP = req.ip || 'unknown';\<close>\<close>

definition clientIP :: "string option \<Rightarrow> string" where
  "clientIP req_ip = (case req_ip of None \<Rightarrow> ''unknown'' | Some a \<Rightarrow> if a = [] then ''unknown'' else a)"

text \<open>
  Backward compatibility: an array ledger becomes the object built by the assignments
  \<^verbatim>\<open>legacyMap[ip] = 'up'\<close>, one per array element in order, on an empty object; an
  absent ledger becomes the empty object.
\<close>

definition normalizeVotedIPs :: "voted_ips \<Rightarrow> obj" where
  "normalizeVotedIPs v =
     (case v of
        Legacy ips \<Rightarrow> fold (\<lambda>ip legacyMap. set_prop ip (JStr ''up'') legacyMap) ips []
      | Missing \<Rightarrow> []
      | Mapping m \<Rightarrow> m)"

text \<open>If the address is known, adjust the totals by removing the old vote.\<close>

definition removeOldVote :: "string \<Rightarrow> prop_read \<Rightarrow> name_entry \<Rightarrow> name_entry" where
  "removeOldVote ip previousVote name =
     (if ip \<noteq> ''unknown'' \<and> truthy_read previousVote then
        let n1 = (if previousVote = Own (JStr ''up'')
                  then name\<lparr>votes := max 0 (or_zero (votes name) - 1)\<rparr> else name);
            n2 = (if previousVote = Own (JStr ''down'')
                  then n1\<lparr>dislikes := max 0 (or_zero (dislikes n1) - 1)\<rparr> else n1)
        in n2
      else name)"

text \<open>Apply the new vote to the record and to the (normalized) ledger \<open>m\<close>.\<close>

definition applyNewVote :: "string \<Rightarrow> jsval \<Rightarrow> obj \<Rightarrow> name_entry \<Rightarrow> name_entry" where
  "applyNewVote ip type m name =
     (if type = JStr ''none'' then name\<lparr>votedIPs := Mapping (AList.delete ip m)\<rparr>
      else
        let n1 = (if type = JStr ''up'' then name\<lparr>votes := or_zero (votes name) + 1\<rparr> else name);
            n2 = (if type = JStr ''down'' then n1\<lparr>dislikes := or_zero (dislikes n1) + 1\<rparr> else n1)
        in n2\<lparr>votedIPs := Mapping (set_prop ip type m)\<rparr>)"

definition applyVote :: "string \<Rightarrow> jsval \<Rightarrow> name_entry \<Rightarrow> name_entry" where
  "applyVote ip type name =
     (let m = normalizeVotedIPs (votedIPs name);
          previousVote = read_prop m ip
      in applyNewVote ip type m (removeOldVote ip previousVote name))"

text \<open>
  \<^verbatim>\<open>POST /api/vote\<close>, current handler. The result is the reply and the content of
  the names file afterwards (written only on the 200 path).
\<close>

definition vote :: "string option \<Rightarrow> jsval \<Rightarrow> jsval \<Rightarrow> name_entry list \<Rightarrow> name_entry reply \<times> name_entry list" where
  "vote req_ip ident type names =
     (if \<not> truthy ident \<or> type \<notin> set [JStr ''up'', JStr ''down'', JStr ''none'']
      then (Fail 400 ''Invalid ID or type'', names)
      else
        case find (\<lambda>n. JStr (id_of n) = ident) names of
          None \<Rightarrow> (Fail 404 ''Name not found'', names)
        | Some name \<Rightarrow>
            let name' = applyVote (clientIP req_ip) type name
            in (Json 200 name', update_first (\<lambda>n. JStr (id_of n) = ident) (\<lambda>_. name') names))"

text \<open>
  \<^verbatim>\<open>POST /api/vote\<close>, earlier handler (the first version in \<^verbatim>\<open>server.js\<close>):
  \<open>cf\<close> is the header \<^verbatim>\<open>cf-connecting-ip\<close>. The ledger is an array; calling
  \<^verbatim>\<open>includes\<close> on an object ledger throws, which the framework answers with 500.
\<close>

definition clientIP_legacy :: "string option \<Rightarrow> string option \<Rightarrow> string" where
  "clientIP_legacy cf req_ip =
     (case cf of
        Some a \<Rightarrow> if a \<noteq> [] then a else clientIP req_ip
      | None \<Rightarrow> clientIP req_ip)"

definition vote_legacy :: "string option \<Rightarrow> string option \<Rightarrow> jsval \<Rightarrow> jsval \<Rightarrow> name_entry list
    \<Rightarrow> name_entry reply \<times> name_entry list" where
  "vote_legacy cf req_ip ident type names =
     (if \<not> truthy ident then (Fail 400 ''ID required'', names)
      else
        case find (\<lambda>n. JStr (id_of n) = ident) names of
          None \<Rightarrow> (Fail 404 ''Name not found'', names)
        | Some name \<Rightarrow>
            (case votedIPs name of
               Mapping m \<Rightarrow> (Fail 500 ''TypeError'', names)
             | _ \<Rightarrow>
                let ip = clientIP_legacy cf req_ip;
                    ips = (case votedIPs name of Legacy l \<Rightarrow> l | _ \<Rightarrow> [])
                in if ip \<noteq> ''unknown'' \<and> ip \<in> set ips
                   then (Fail 403 ''You have already voted for this name.'', names)
                   else
                     let n1 = (if type = JStr ''down''
                               then name\<lparr>dislikes := or_zero (dislikes name) + 1\<rparr>
                               else name\<lparr>votes := or_zero (votes name) + 1\<rparr>);
                         name' = n1\<lparr>votedIPs := Legacy (ips @ [ip])\<rparr>
                     in (Json 200 name', update_first (\<lambda>n. JStr (id_of n) = ident) (\<lambda>_. name') names)))"

text \<open>
  A sequence of requests to the names service, each handler running on the file the
  previous one left. \<open>ADMIN_PIN\<close> is the configured secret.
\<close>

datatype request =
    PostName string jsval
  | PostVote "string option" jsval jsval
  | DeleteName "string option" string

fun handle :: "string \<Rightarrow> request \<Rightarrow> name_entry list \<Rightarrow> name_entry list" where
  "handle ADMIN_PIN (PostName now name) names = snd (add_name now name names)"
| "handle ADMIN_PIN (PostVote req_ip ident type) names = snd (vote req_ip ident type names)"
| "handle ADMIN_PIN (DeleteName pin ident) names = snd (delete_name ADMIN_PIN pin ident names)"

definition serve :: "string \<Rightarrow> request list \<Rightarrow> name_entry list \<Rightarrow> name_entry list" where
  "serve ADMIN_PIN reqs names = fold (handle ADMIN_PIN) reqs names"

fun resolvable :: "request \<Rightarrow> bool" where
  "resolvable (PostVote req_ip ident type) = (clientIP req_ip \<noteq> ''unknown'')"
| "resolvable _ = True"

text \<open>A vote whose client address is not the key \<^verbatim>\<open>__proto__\<close>.\<close>

fun plain_address :: "request \<Rightarrow> bool" where
  "plain_address (PostVote req_ip ident type) = (clientIP req_ip \<noteq> ''__proto__'')"
| "plain_address _ = True"

text \<open>The number of ledger entries that record the choice \<open>c\<close>.\<close>

definition count_choice :: "string \<Rightarrow> obj \<Rightarrow> int" where
  "count_choice c m = int (length (filter (\<lambda>(k, v). v = JStr c) m))"

definition ledger_ok :: "name_entry \<Rightarrow> bool" where
  "ledger_ok r =
     (let m = normalizeVotedIPs (votedIPs r)
      in distinct (map fst m) \<and> votes r = count_choice ''up'' m \<and> dislikes r = count_choice ''down'' m)"

subsection \<open>The vote algorithm as the specification words it\<close>

text \<open>
  Steps 3 to 5 of the specification's \<^verbatim>\<open>applyVote\<close>, on a record whose ledger is the
  mapping \<open>m\<close>: if a previous entry exists and the voter is resolvable, the counter
  matching it is decremented by 1, floored at 0; then the entry is removed for the
  choice \<^verbatim>\<open>none\<close>, and otherwise the counter matching the choice is incremented and the
  entry is set to the choice.
\<close>

definition spec_decrement :: "jsval \<Rightarrow> name_entry \<Rightarrow> name_entry" where
  "spec_decrement c r =
     (if c = JStr ''up'' then r\<lparr>votes := max 0 (votes r - 1)\<rparr>
      else if c = JStr ''down'' then r\<lparr>dislikes := max 0 (dislikes r - 1)\<rparr>
      else r)"

definition spec_increment :: "jsval \<Rightarrow> name_entry \<Rightarrow> name_entry" where
  "spec_increment c r =
     (if c = JStr ''up'' then r\<lparr>votes := votes r + 1\<rparr>
      else if c = JStr ''down'' then r\<lparr>dislikes := dislikes r + 1\<rparr>
      else r)"

definition spec_applyVote :: "string \<Rightarrow> jsval \<Rightarrow> obj \<Rightarrow> name_entry \<Rightarrow> name_entry" where
  "spec_applyVote voter choice m r =
     (let r1 = (case map_of m voter of
                  Some previous \<Rightarrow> if voter \<noteq> ''unknown'' then spec_decrement previous r else r
                | None \<Rightarrow> r)
      in if choice = JStr ''none'' then r1\<lparr>votedIPs := Mapping (AList.delete voter m)\<rparr>
         else (spec_increment choice r1)\<lparr>votedIPs := Mapping (AList.update voter choice m)\<rparr>)"

section \<open>Wishlist, bets and offers\<close>

text \<open>
  The records of these collections are objects. \<^verbatim>\<open>DELETE /api/wishlist/:id\<close> and
  \<^verbatim>\<open>DELETE /api/bets/:id\<close> filter the list and compare lengths; the file is written
  only when an element went away.
\<close>

definition delete_wishlist :: "string \<Rightarrow> string option \<Rightarrow> string \<Rightarrow> obj list \<Rightarrow> obj reply \<times> obj list" where
  "delete_wishlist ADMIN_PIN pin ident list =
     (if pin \<noteq> Some ADMIN_PIN then (Fail 401 ''Unauthorized'', list)
      else
        let initialLength = length list;
            list' = filter (\<lambda>i. get_prop i ''id'' \<noteq> JStr ident) list
        in if length list' = initialLength then (Fail 404 ''Not found'', list)
           else (Json 200 success, list'))"

definition delete_bet :: "string \<Rightarrow> string option \<Rightarrow> string \<Rightarrow> obj list \<Rightarrow> obj reply \<times> obj list" where
  "delete_bet ADMIN_PIN pin ident list =
     (if pin \<noteq> Some ADMIN_PIN then (Fail 401 ''Unauthorized'', list)
      else
        let initialLength = length list;
            list' = filter (\<lambda>b. get_prop b ''id'' \<noteq> JStr ident) list
        in if length list' = initialLength then (Fail 404 ''Not found'', list)
           else (Json 200 success, list'))"

text \<open>
  \<^verbatim>\<open>DELETE /api/offers/:id\<close>. The state is the offers file and the uploads directory;
  \<open>unlinkImage\<close> stands for the best-effort removal of the record's image file
  (\<^verbatim>\<open>fs.existsSync\<close>, \<^verbatim>\<open>fs.unlinkSync\<close>, errors caught and logged).
\<close>

definition delete_offer :: "(obj \<Rightarrow> 'fs \<Rightarrow> 'fs) \<Rightarrow> string \<Rightarrow> string option \<Rightarrow> string
    \<Rightarrow> obj list \<times> 'fs \<Rightarrow> obj reply \<times> obj list \<times> 'fs" where
  "delete_offer unlinkImage ADMIN_PIN pin ident st =
     (case st of (list, uploads) \<Rightarrow>
        if pin \<noteq> Some ADMIN_PIN then (Fail 401 ''Unauthorized'', list, uploads)
        else
          case find (\<lambda>o'. get_prop o' ''id'' = JStr ident) list of
            None \<Rightarrow> (Fail 404 ''Not found'', list, uploads)
          | Some item \<Rightarrow>
              (Json 200 success,
               filter (\<lambda>o'. get_prop o' ''id'' \<noteq> JStr ident) list,
               unlinkImage item uploads))"

text \<open>
  \<^verbatim>\<open>GET /api/offers\<close>: with the secret the stored list, otherwise
  \<^verbatim>\<open>offers.map(o => ({ ...o, email: undefined }))\<close>. The spread copies the
  properties of \<^verbatim>\<open>o\<close> one by one, in order, into a new object (\<open>spread\<close>), and the
  property \<^verbatim>\<open>email\<close> is then set on the copy. \<open>emitted\<close> is the JSON text that
  \<^verbatim>\<open>res.json\<close> sends for the reply.
\<close>

definition spread :: "obj \<Rightarrow> obj" where
  "spread ob = fold (\<lambda>(k, v) copy. AList.update k v copy) ob []"

definition get_offers :: "string \<Rightarrow> string option \<Rightarrow> obj list \<Rightarrow> obj list reply" where
  "get_offers ADMIN_PIN pin offers =
     (if pin = Some ADMIN_PIN then Json 200 offers
      else
        let publicOffers = map (\<lambda>o'. AList.update ''email'' JUndefined (spread o')) offers
        in Json 200 publicOffers)"

fun emitted :: "obj list reply \<Rightarrow> obj list" where
  "emitted (Json c obs) = stringify_list obs"
| "emitted (Fail c msg) = []"

text \<open>
  \<^verbatim>\<open>POST /api/bets\<close>; \<open>now\<close> is \<^verbatim>\<open>Date.now().toString()\<close> and \<open>timestamp\<close> is
  \<^verbatim>\<open>new Date().toISOString()\<close>. The file receives the list through
  \<^verbatim>\<open>JSON.stringify\<close>.
\<close>

definition add_bet :: "string \<Rightarrow> string \<Rightarrow> obj \<Rightarrow> obj list \<Rightarrow> obj reply \<times> obj list" where
  "add_bet now timestamp reqBody list =
     (let name = get_prop reqBody ''name'';
          date = get_prop reqBody ''date'';
          time = get_prop reqBody ''time'';
          weight = get_prop reqBody ''weight'';
          size_v = get_prop reqBody ''size''
      in if \<not> truthy name \<or> \<not> truthy date \<or> \<not> truthy weight \<or> \<not> truthy size_v
         then (Fail 400 ''Missing fields'', list)
         else if too_long name 50 then (Fail 400 ''Name too long (max 50 chars)'', list)
         else
           let newBet =
                 [(''id'', JStr now),
                  (''name'', sanitize name),
                  (''date'', sanitize date),
                  (''time'', or_else (sanitize time) (JStr ''12:00'')),
                  (''weight'', parseInt weight),
                  (''size'', parseInt size_v),
                  (''timestamp'', JStr timestamp)]
           in (Json 201 newBet, stringify_list (list @ [newBet])))"

fun is_integer :: "jsval \<Rightarrow> bool" where
  "is_integer (JNum n) = True"
| "is_integer _ = False"

section \<open>Example data\<close>

text \<open>Concrete records and collections at which the theorems below are instantiated.\<close>

definition mia_empty :: name_entry where
  "mia_empty = \<lparr>id_of = ''1'', name_of = JStr ''Mia'', votes = 0, dislikes = 0, votedIPs = Mapping []\<rparr>"

definition mia_up :: name_entry where
  "mia_up = \<lparr>id_of = ''1'', name_of = JStr ''Mia'', votes = 1, dislikes = 0,
              votedIPs = Mapping [(''10.0.0.1'', JStr ''up'')]\<rparr>"

definition mia_down :: name_entry where
  "mia_down = \<lparr>id_of = ''1'', name_of = JStr ''Mia'', votes = 0, dislikes = 1,
                votedIPs = Mapping [(''10.0.0.1'', JStr ''down'')]\<rparr>"

definition mia_counted :: name_entry where
  "mia_counted = \<lparr>id_of = ''1'', name_of = JStr ''Mia'', votes = 1, dislikes = 0,
                   votedIPs = Mapping []\<rparr>"

definition mia_spec_proto :: name_entry where
  "mia_spec_proto = \<lparr>id_of = ''1'', name_of = JStr ''Mia'', votes = 1, dislikes = 0,
                      votedIPs = Mapping [(''__proto__'', JStr ''up'')]\<rparr>"

definition mia_legacy_proto :: name_entry where
  "mia_legacy_proto = \<lparr>id_of = ''1'', name_of = JStr ''Mia'', votes = 2, dislikes = 0,
                        votedIPs = Legacy [''__proto__'', ''10.0.0.2'']\<rparr>"

definition sam :: name_entry where
  "sam = \<lparr>id_of = ''2'', name_of = JStr ''Sam'', votes = 0, dislikes = 0, votedIPs = Legacy []\<rparr>"

definition mia_converted :: name_entry where
  "mia_converted = \<lparr>id_of = ''1'', name_of = JStr ''Mia'', votes = 2, dislikes = 1,
                     votedIPs = Mapping [(''10.0.0.2'', JStr ''up''), (''10.0.0.3'', JStr ''down'')]\<rparr>"

definition mia_unknown_twice :: name_entry where
  "mia_unknown_twice = \<lparr>id_of = ''1'', name_of = JStr ''Mia'', votes = 2, dislikes = 0,
                         votedIPs = Mapping [(''unknown'', JStr ''up'')]\<rparr>"

definition mia_two_down :: name_entry where
  "mia_two_down = \<lparr>id_of = ''1'', name_of = JStr ''Mia'', votes = 0, dislikes = 2,
                    votedIPs = Mapping [(''10.0.0.1'', JStr ''down''), (''10.0.0.2'', JStr ''down'')]\<rparr>"

definition offer_a :: obj where
  "offer_a = [(''id'', JStr ''7''), (''name'', JStr ''TestUser''), (''email'', JStr ''test@example.com''),
              (''description'', JStr ''Babybett''), (''imageUrl'', JStr ''/uploads/7.jpg''),
              (''timestamp'', JStr ''2026-01-01T00:00:00.000Z'')]"

definition offer_a_public :: obj where
  "offer_a_public = [(''id'', JStr ''7''), (''name'', JStr ''TestUser''),
              (''description'', JStr ''Babybett''), (''imageUrl'', JStr ''/uploads/7.jpg''),
              (''timestamp'', JStr ''2026-01-01T00:00:00.000Z'')]"

definition bet_body :: obj where
  "bet_body = [(''name'', JStr ''TestBet''), (''date'', JStr ''2026-08-20''),
               (''weight'', JStr ''abc''), (''size'', JStr ''50'')]"

section \<open>Basic facts\<close>

lemma or_zero_id [simp]: "or_zero n = n"
  by (simp add: or_zero_def)

lemma find_update_first:
  "find P xs = Some x \<Longrightarrow> P y \<Longrightarrow> find P (update_first P (\<lambda>_. y) xs) = Some y"
  by (induction xs) (auto split: if_splits)

lemma update_first_same:
  "find P xs = Some x \<Longrightarrow> update_first P (\<lambda>_. x) xs = xs"
  by (induction xs) (auto split: if_splits)

text \<open>The list after the mutation: the first match is replaced where it stands.\<close>

lemma update_first_decomp:
  "find P xs = Some x \<Longrightarrow>
   update_first P f xs = takeWhile (\<lambda>y. \<not> P y) xs @ f x # tl (dropWhile (\<lambda>y. \<not> P y) xs)"
  by (induction xs) (auto split: if_splits)

lemma read_prop_Own: "read_prop m k = Own v \<longleftrightarrow> map_of m k = Some v"
  by (simp add: read_prop_def split: option.splits)

lemma read_prop_no_entry:
  "map_of m k = None \<Longrightarrow> read_prop m k = Inherited \<or> read_prop m k = Absent"
  by (simp add: read_prop_def)

lemma set_prop_plain: "k \<noteq> ''__proto__'' \<Longrightarrow> set_prop k v m = AList.update k v m"
  by (simp add: set_prop_def)

lemma set_prop_own: "map_of m k = Some w \<Longrightarrow> set_prop k v m = AList.update k v m"
  by (simp add: set_prop_def)

lemma set_prop_proto:
  "map_of m ''__proto__'' = None \<Longrightarrow> set_prop ''__proto__'' v m = m"
  by (simp add: set_prop_def)

lemma delete_absent: "map_of m k = None \<Longrightarrow> AList.delete k m = m"
  by (simp add: map_of_eq_None_iff)

lemma normalize_Mapping [simp]: "normalizeVotedIPs (Mapping m) = m"
  by (simp add: normalizeVotedIPs_def)

lemma id_of_applyVote [simp]: "id_of (applyVote ip type r) = id_of r"
  by (simp add: applyVote_def applyNewVote_def removeOldVote_def Let_def)

lemma name_of_applyVote [simp]: "name_of (applyVote ip type r) = name_of r"
  by (simp add: applyVote_def applyNewVote_def removeOldVote_def Let_def)

lemma votedIPs_applyVote:
  "votedIPs (applyVote ip type r) =
     Mapping (if type = JStr ''none'' then AList.delete ip (normalizeVotedIPs (votedIPs r))
              else set_prop ip type (normalizeVotedIPs (votedIPs r)))"
  by (simp add: applyVote_def applyNewVote_def removeOldVote_def Let_def)

lemma votes_applyVote:
  "votes (applyVote ip type r) =
     (if ip \<noteq> ''unknown'' \<and> map_of (normalizeVotedIPs (votedIPs r)) ip = Some (JStr ''up'')
      then max 0 (votes r - 1) else votes r)
     + (if type = JStr ''up'' then 1 else 0)"
  by (cases "map_of (normalizeVotedIPs (votedIPs r)) ip")
     (auto simp add: applyVote_def applyNewVote_def removeOldVote_def read_prop_def Let_def)

lemma dislikes_applyVote:
  "dislikes (applyVote ip type r) =
     (if ip \<noteq> ''unknown'' \<and> map_of (normalizeVotedIPs (votedIPs r)) ip = Some (JStr ''down'')
      then max 0 (dislikes r - 1) else dislikes r)
     + (if type = JStr ''down'' then 1 else 0)"
  by (cases "map_of (normalizeVotedIPs (votedIPs r)) ip")
     (auto simp add: applyVote_def applyNewVote_def removeOldVote_def read_prop_def Let_def)

text \<open>The 200 path of the current vote handler.\<close>

lemma vote_found:
  assumes "find (\<lambda>n. JStr (id_of n) = ident) names = Some r"
    and "truthy ident"
    and "type \<in> {JStr ''up'', JStr ''down'', JStr ''none''}"
  shows "vote req_ip ident type names =
           (Json 200 (applyVote (clientIP req_ip) type r),
            update_first (\<lambda>n. JStr (id_of n) = ident) (\<lambda>_. applyVote (clientIP req_ip) type r) names)"
  using assms by (auto simp add: vote_def Let_def)

section \<open>Withdrawal without a prior vote\<close>

text \<open>
  Claim C10. For an existing name record whose ledger is a mapping, and a voter
  identity with no entry in it, a vote request of type \<^verbatim>\<open>none\<close> is answered with
  status 200 and the record as it was, and the names file is left as it was: the votes,
  the dislikes and the ledger are unchanged.
\<close>

theorem vote_none_without_entry:
  assumes "find (\<lambda>n. JStr (id_of n) = ident) names = Some r"
    and "truthy ident"
    and "votedIPs r = Mapping m"
    and "map_of m (clientIP req_ip) = None"
  shows "vote req_ip ident (JStr ''none'') names = (Json 200 r, names)"
proof -
  have "read_prop m (clientIP req_ip) = Inherited \<or> read_prop m (clientIP req_ip) = Absent"
    using assms(4) by (rule read_prop_no_entry)
  then have "applyVote (clientIP req_ip) (JStr ''none'') r = r"
    using assms(3,4)
    by (auto simp add: applyVote_def applyNewVote_def removeOldVote_def delete_absent)
  then show ?thesis
    using assms(1,2) by (simp add: vote_found update_first_same)
qed

theorem vote_none_without_entry_witness:
  "find (\<lambda>n. JStr (id_of n) = JStr ''1'') [mia_up] = Some mia_up
   \<and> truthy (JStr ''1'')
   \<and> votedIPs mia_up = Mapping [(''10.0.0.1'', JStr ''up'')]
   \<and> map_of [(''10.0.0.1'', JStr ''up'')] (clientIP (Some ''10.0.0.2'')) = None
   \<and> vote (Some ''10.0.0.2'') (JStr ''1'') (JStr ''none'') [mia_up] = (Json 200 mia_up, [mia_up])"
proof -
  have h1: "find (\<lambda>n. JStr (id_of n) = JStr ''1'') [mia_up] = Some mia_up"
    by (simp add: mia_up_def)
  have h2: "truthy (JStr ''1'')" by simp
  have h3: "votedIPs mia_up = Mapping [(''10.0.0.1'', JStr ''up'')]"
    by (simp add: mia_up_def)
  have h4: "map_of [(''10.0.0.1'', JStr ''up'')] (clientIP (Some ''10.0.0.2'')) = None"
    by (simp add: clientIP_def)
  show ?thesis
    using h1 h2 h3 h4 vote_none_without_entry [OF h1 h2 h3 h4] by simp
qed

section \<open>The vote handler against the specified step sequence\<close>

text \<open>
  For every voter identity other than the key \<^verbatim>\<open>__proto__\<close>, and for that key when
  the ledger owns an entry for it, the handler computes the record that the specified
  steps produce, and stores it where the old record stood.
\<close>

lemma removeOldVote_spec:
  "removeOldVote ip (read_prop m ip) r =
     (case map_of m ip of
        Some previous \<Rightarrow> if ip \<noteq> ''unknown'' then spec_decrement previous r else r
      | None \<Rightarrow> r)"
proof (cases "map_of m ip")
  case None
  then show ?thesis
    by (simp add: removeOldVote_def read_prop_def)
next
  case (Some v)
  then have rd: "read_prop m ip = Own v" by (simp add: read_prop_Own)
  show ?thesis
  proof (cases "v = JStr ''up'' \<or> v = JStr ''down''")
    case True
    then show ?thesis
      using Some rd by (auto simp add: removeOldVote_def spec_decrement_def)
  next
    case False
    then show ?thesis
      using Some rd by (simp add: removeOldVote_def spec_decrement_def)
  qed
qed

lemma applyNewVote_spec:
  assumes "type \<in> {JStr ''up'', JStr ''down'', JStr ''none''}"
    and "set_prop ip type m = AList.update ip type m"
  shows "applyNewVote ip type m r1 =
     (if type = JStr ''none'' then r1\<lparr>votedIPs := Mapping (AList.delete ip m)\<rparr>
      else (spec_increment type r1)\<lparr>votedIPs := Mapping (AList.update ip type m)\<rparr>)"
proof -
  consider "type = JStr ''up''" | "type = JStr ''down''" | "type = JStr ''none''"
    using assms(1) by auto
  then show ?thesis
  proof cases
    case 1
    then show ?thesis using assms(2) by (simp add: applyNewVote_def spec_increment_def)
  next
    case 2
    then show ?thesis using assms(2) by (simp add: applyNewVote_def spec_increment_def)
  next
    case 3
    then show ?thesis by (simp add: applyNewVote_def)
  qed
qed

lemma vote_refines_spec_plain:
  assumes "find (\<lambda>n. JStr (id_of n) = ident) names = Some r"
    and "truthy ident"
    and "type \<in> {JStr ''up'', JStr ''down'', JStr ''none''}"
    and "votedIPs r = Mapping m"
    and "clientIP req_ip \<noteq> ''__proto__'' \<or> map_of m (clientIP req_ip) \<noteq> None"
  shows "vote req_ip ident type names =
           (Json 200 (spec_applyVote (clientIP req_ip) type m r),
            takeWhile (\<lambda>n. JStr (id_of n) \<noteq> ident) names
              @ spec_applyVote (clientIP req_ip) type m r
              # tl (dropWhile (\<lambda>n. JStr (id_of n) \<noteq> ident) names))"
proof -
  let ?ip = "clientIP req_ip"
  have s: "set_prop ?ip type m = AList.update ?ip type m"
    using assms(5) by (auto simp add: set_prop_def)
  have "applyVote ?ip type r =
      applyNewVote ?ip type m (removeOldVote ?ip (read_prop m ?ip) r)"
    using assms(4) by (simp add: applyVote_def)
  also have "\<dots> = spec_applyVote ?ip type m r"
    unfolding removeOldVote_spec applyNewVote_spec [OF assms(3) s]
    by (simp add: spec_applyVote_def)
  finally have "applyVote ?ip type r = spec_applyVote ?ip type m r" .
  then show ?thesis
    using vote_found [OF assms(1,2,3), of req_ip] update_first_decomp [OF assms(1)] by simp
qed

text \<open>
  Claim C2 fails on the code for the voter identity \<^verbatim>\<open>__proto__\<close>: the specified
  step 5 sets the voter's ledger entry to the choice, while the assignment
  \<^verbatim>\<open>name.votedIPs[clientIP] = type\<close> stores nothing for that key. On a record with
  an empty mapping ledger the \<^verbatim>\<open>up\<close> vote is answered 200 with \<open>votes = 1\<close> and the
  ledger still empty; the specified steps give the ledger with the entry.
\<close>

theorem vote_proto_entry_not_stored:
  "vote (Some ''__proto__'') (JStr ''1'') (JStr ''up'') [mia_empty] = (Json 200 mia_counted, [mia_counted])
   \<and> votedIPs mia_counted = Mapping []
   \<and> spec_applyVote (clientIP (Some ''__proto__'')) (JStr ''up'') [] mia_empty = mia_spec_proto
   \<and> votedIPs mia_spec_proto = Mapping [(''__proto__'', JStr ''up'')]"
  by (simp add: vote_def applyVote_def applyNewVote_def removeOldVote_def read_prop_def
      set_prop_def proto_keys_def clientIP_def spec_applyVote_def spec_increment_def
      mia_empty_def mia_counted_def mia_spec_proto_def Let_def)

theorem vote_proto_entry_not_stored_witness:
  "truthy (JStr ''1'')
   \<and> clientIP (Some ''__proto__'') \<noteq> ''unknown''
   \<and> fst (vote (Some ''__proto__'') (JStr ''1'') (JStr ''up'') [mia_empty])
       \<noteq> Json 200 (spec_applyVote (clientIP (Some ''__proto__'')) (JStr ''up'') [] mia_empty)"
  using vote_proto_entry_not_stored
  by (simp add: clientIP_def mia_counted_def mia_spec_proto_def)

text \<open>
  The next request from that identity reads the prototype object as the previous vote,
  which matches no counter: a second \<^verbatim>\<open>up\<close> vote is counted again.
\<close>

lemma vote_proto_counted_again:
  "vote (Some ''__proto__'') (JStr ''1'') (JStr ''up'') [mia_counted]
     = (Json 200 (mia_counted\<lparr>votes := 2\<rparr>), [mia_counted\<lparr>votes := 2\<rparr>])"
  by (simp add: vote_def applyVote_def applyNewVote_def removeOldVote_def read_prop_def
      set_prop_def proto_keys_def clientIP_def mia_counted_def Let_def)

section \<open>The ledger invariant\<close>

lemma count_choice_Nil [simp]: "count_choice c [] = 0"
  by (simp add: count_choice_def)

lemma count_choice_Cons [simp]:
  "count_choice c ((k, v) # m) = (if v = JStr c then 1 else 0) + count_choice c m"
  by (simp add: count_choice_def)

lemma count_choice_nonneg: "0 \<le> count_choice c m"
  by (simp add: count_choice_def)

lemma count_choice_entry:
  "map_of m k = Some (JStr c) \<Longrightarrow> 1 \<le> count_choice c m"
proof (induction m)
  case Nil
  then show ?case by simp
next
  case (Cons p m)
  obtain k' v where p: "p = (k', v)" by (cases p)
  show ?case
    using Cons count_choice_nonneg [of c m] by (auto simp add: p split: if_splits)
qed

lemma count_choice_delete:
  "distinct (map fst m) \<Longrightarrow>
   count_choice c (AList.delete k m) =
     count_choice c m - (if map_of m k = Some (JStr c) then 1 else 0)"
proof (induction m)
  case Nil
  then show ?case by simp
next
  case (Cons p m)
  obtain k' v where p: "p = (k', v)" by (cases p)
  show ?case
  proof (cases "k' = k")
    case True
    then have "k \<notin> fst ` set m" using Cons.prems p by auto
    then have "AList.delete k m = m" by simp
    then show ?thesis using True p by simp
  next
    case False
    then show ?thesis using Cons p by simp
  qed
qed

lemma count_choice_update:
  "distinct (map fst m) \<Longrightarrow>
   count_choice c (AList.update k v m) =
     count_choice c m - (if map_of m k = Some (JStr c) then 1 else 0)
       + (if v = JStr c then 1 else 0)"
proof (induction m)
  case Nil
  then show ?case by simp
next
  case (Cons p m)
  obtain k' v' where p: "p = (k', v')" by (cases p)
  show ?case
  proof (cases "k' = k")
    case True
    then show ?thesis using p by simp
  next
    case False
    then show ?thesis using Cons p by simp
  qed
qed

text \<open>With one entry per key, the count is the number of keys mapped to the choice.\<close>

lemma count_choice_card:
  "distinct (map fst m) \<Longrightarrow>
   count_choice c m = int (card {k. map_of m k = Some (JStr c)})"
proof (induction m)
  case Nil
  then show ?case by simp
next
  case (Cons p m)
  obtain k' v where p: "p = (k', v)" by (cases p)
  let ?S = "{k. map_of m k = Some (JStr c)}"
  have fin: "finite ?S"
    by (rule finite_subset [OF _ finite_dom_map_of [of m]]) auto
  have notin: "k' \<notin> ?S"
    using Cons.prems p by (auto simp add: map_of_eq_None_iff [symmetric])
  have eq: "{k. map_of (p # m) k = Some (JStr c)} = (if v = JStr c then insert k' ?S else ?S)"
    using notin by (auto simp add: p)
  have "count_choice c (p # m) = (if v = JStr c then 1 else 0) + int (card ?S)"
    using Cons by (simp add: p)
  also have "\<dots> = int (card (if v = JStr c then insert k' ?S else ?S))"
    using fin notin by simp
  finally show ?case by (simp only: eq)
qed

text \<open>
  A vote from a resolvable address other than \<^verbatim>\<open>__proto__\<close> keeps the counters equal
  to the ledger's counts.
\<close>

lemma ledger_ok_applyVote:
  assumes "ledger_ok r" and "ip \<noteq> ''unknown''" and "ip \<noteq> ''__proto__''"
    and "type \<in> {JStr ''up'', JStr ''down'', JStr ''none''}"
  shows "ledger_ok (applyVote ip type r)"
proof -
  define m where "m = normalizeVotedIPs (votedIPs r)"
  have d: "distinct (map fst m)" and v: "votes r = count_choice ''up'' m"
    and dl: "dislikes r = count_choice ''down'' m"
    using assms(1) by (simp_all add: ledger_ok_def m_def Let_def)
  define m' where "m' = (if type = JStr ''none'' then AList.delete ip m else AList.update ip type m)"
  have d': "distinct (map fst m')"
    using d by (simp add: m'_def distinct_update distinct_delete)
  have cnt: "count_choice c m' =
      count_choice c m - (if map_of m ip = Some (JStr c) then 1 else 0)
        + (if type = JStr c then 1 else 0)" if "c = ''up'' \<or> c = ''down''" for c
    using d that by (auto simp add: m'_def count_choice_update count_choice_delete)
  have ge: "map_of m ip = Some (JStr c) \<Longrightarrow> max 0 (count_choice c m - 1) = count_choice c m - 1" for c
    using count_choice_entry [of m ip c] by simp
  have "votes (applyVote ip type r) = count_choice ''up'' m'"
    using assms(2) ge [of "''up''"]
    by (simp add: votes_applyVote m_def [symmetric] v cnt)
  moreover have "dislikes (applyVote ip type r) = count_choice ''down'' m'"
    using assms(2) ge [of "''down''"]
    by (simp add: dislikes_applyVote m_def [symmetric] dl cnt)
  moreover have "normalizeVotedIPs (votedIPs (applyVote ip type r)) = m'"
    using assms(3) by (simp add: votedIPs_applyVote set_prop_plain m'_def m_def)
  ultimately show ?thesis
    using d' by (simp add: ledger_ok_def)
qed

lemma set_update_first:
  "set (update_first P f xs) \<subseteq> set xs \<union> f ` set xs"
  by (induction xs) auto

lemma in_update_first:
  "y \<in> set (update_first P (\<lambda>_. z) xs) \<Longrightarrow> y \<in> set xs \<or> y = z"
  using set_update_first [of P "\<lambda>_. z" xs] by auto

lemma find_in_set: "find P xs = Some x \<Longrightarrow> x \<in> set xs"
  by (auto simp add: find_Some_iff)

lemma ledger_ok_vote:
  assumes "\<forall>r \<in> set names. ledger_ok r" and "clientIP req_ip \<noteq> ''unknown''"
    and "clientIP req_ip \<noteq> ''__proto__''"
  shows "\<forall>r \<in> set (snd (vote req_ip ident type names)). ledger_ok r"
proof (cases "\<not> truthy ident \<or> type \<notin> {JStr ''up'', JStr ''down'', JStr ''none''}")
  case True
  then show ?thesis using assms(1) by (auto simp add: vote_def)
next
  case valid: False
  show ?thesis
  proof (cases "find (\<lambda>n. JStr (id_of n) = ident) names")
    case None
    then show ?thesis using assms(1) valid by (auto simp add: vote_def)
  next
    case (Some r)
    have "ledger_ok r" using Some assms(1) find_in_set by fastforce
    then have ok: "ledger_ok (applyVote (clientIP req_ip) type r)"
      using ledger_ok_applyVote assms(2,3) valid by blast
    have "snd (vote req_ip ident type names) =
        update_first (\<lambda>n. JStr (id_of n) = ident) (\<lambda>_. applyVote (clientIP req_ip) type r) names"
      using vote_found [OF Some, of type req_ip] valid by simp
    then show ?thesis
      using ok assms(1) in_update_first by fastforce
  qed
qed

lemma ledger_ok_add_name:
  assumes "\<forall>r \<in> set names. ledger_ok r"
  shows "\<forall>r \<in> set (snd (add_name now name names)). ledger_ok r"
  using assms by (auto simp add: add_name_def ledger_ok_def normalizeVotedIPs_def Let_def)

lemma ledger_ok_delete_name:
  assumes "\<forall>r \<in> set names. ledger_ok r"
  shows "\<forall>r \<in> set (snd (delete_name P pin ident names)). ledger_ok r"
  using assms by (auto simp add: delete_name_def)

lemma ledger_ok_handle:
  assumes "\<forall>r \<in> set names. ledger_ok r" and "resolvable q" and "plain_address q"
  shows "\<forall>r \<in> set (handle P q names). ledger_ok r"
proof (cases q)
  case (PostName now name)
  then show ?thesis using ledger_ok_add_name [OF assms(1)] by simp
next
  case (PostVote req_ip ident type)
  then show ?thesis using ledger_ok_vote [OF assms(1)] assms(2,3) by simp
next
  case (DeleteName pin ident)
  then show ?thesis using ledger_ok_delete_name [OF assms(1)] by simp
qed

lemma ledger_ok_serve:
  assumes "\<forall>q \<in> set reqs. resolvable q \<and> plain_address q" and "\<forall>r \<in> set names. ledger_ok r"
  shows "\<forall>r \<in> set (serve P reqs names). ledger_ok r"
  using assms unfolding serve_def
proof (induction reqs arbitrary: names)
  case Nil
  then show ?case by simp
next
  case (Cons q reqs)
  have "\<forall>r \<in> set (handle P q names). ledger_ok r"
    using ledger_ok_handle [of names q P] Cons.prems by simp
  then show ?case using Cons.IH [of "handle P q names"] Cons.prems(1) by simp
qed

text \<open>
  Claim C3, as stated, fails: a caller without a resolvable address is never
  decremented, so two \<^verbatim>\<open>up\<close> votes from such a caller on a freshly created record
  leave \<open>votes = 2\<close> while a single identity is mapped to \<^verbatim>\<open>up\<close>.
\<close>

theorem ledger_invariant_counterexample:
  "serve ''2026''
     [PostName ''1'' (JStr ''Mia''),
      PostVote None (JStr ''1'') (JStr ''up''),
      PostVote None (JStr ''1'') (JStr ''up'')] [] = [mia_unknown_twice]
   \<and> votes mia_unknown_twice = 2
   \<and> count_choice ''up'' (normalizeVotedIPs (votedIPs mia_unknown_twice)) = 1"
  by (simp add: serve_def add_name_def vote_def applyVote_def applyNewVote_def removeOldVote_def
      normalizeVotedIPs_def clientIP_def read_prop_def set_prop_def proto_keys_def too_long_def
      trim_def escape_angle_def is_ws_def mia_unknown_twice_def Let_def)

text \<open>
  Claim C3, amended. Starting from the empty names file, after any sequence of name
  creations, name deletions and vote requests in which every vote comes from a
  resolvable address other than the key \<^verbatim>\<open>__proto__\<close>, every stored record has a
  ledger with one entry per voter identity, \<open>votes\<close> equal to the number of
  identities mapped to \<^verbatim>\<open>up\<close>, and \<open>dislikes\<close> equal to the number mapped to
  \<^verbatim>\<open>down\<close>. Nothing is stated for votes from the address \<^verbatim>\<open>__proto__\<close>, whose
  entry the handler fails to store.
\<close>

theorem ledger_invariant_resolvable:
  assumes "\<forall>q \<in> set reqs. resolvable q \<and> plain_address q"
    and "r \<in> set (serve ADMIN_PIN reqs [])"
  shows "distinct (map fst (normalizeVotedIPs (votedIPs r)))
       \<and> votes r = count_choice ''up'' (normalizeVotedIPs (votedIPs r))
       \<and> dislikes r = count_choice ''down'' (normalizeVotedIPs (votedIPs r))
       \<and> votes r = int (card {ip. map_of (normalizeVotedIPs (votedIPs r)) ip = Some (JStr ''up'')})
       \<and> dislikes r = int (card {ip. map_of (normalizeVotedIPs (votedIPs r)) ip = Some (JStr ''down'')})"
proof -
  have "\<forall>r \<in> set (serve ADMIN_PIN reqs []). ledger_ok r"
    using ledger_ok_serve [OF assms(1), of "[]" ADMIN_PIN] by simp
  then have "ledger_ok r" using assms(2) by blast
  then have ok: "distinct (map fst (normalizeVotedIPs (votedIPs r)))"
    "votes r = count_choice ''up'' (normalizeVotedIPs (votedIPs r))"
    "dislikes r = count_choice ''down'' (normalizeVotedIPs (votedIPs r))"
    by (simp_all add: ledger_ok_def Let_def)
  then show ?thesis
    using count_choice_card [OF ok(1)] by simp
qed

theorem ledger_invariant_resolvable_witness:
  "resolvable (PostName ''1'' (JStr ''Mia''))
   \<and> resolvable (PostVote (Some ''10.0.0.1'') (JStr ''1'') (JStr ''up''))
   \<and> resolvable (PostVote (Some ''10.0.0.2'') (JStr ''1'') (JStr ''down''))
   \<and> resolvable (PostVote (Some ''10.0.0.1'') (JStr ''1'') (JStr ''down''))
   \<and> plain_address (PostName ''1'' (JStr ''Mia''))
   \<and> plain_address (PostVote (Some ''10.0.0.1'') (JStr ''1'') (JStr ''up''))
   \<and> plain_address (PostVote (Some ''10.0.0.2'') (JStr ''1'') (JStr ''down''))
   \<and> plain_address (PostVote (Some ''10.0.0.1'') (JStr ''1'') (JStr ''down''))
   \<and> mia_two_down
       \<in> set (serve ''2026''
            [PostName ''1'' (JStr ''Mia''),
             PostVote (Some ''10.0.0.1'') (JStr ''1'') (JStr ''up''),
             PostVote (Some ''10.0.0.2'') (JStr ''1'') (JStr ''down''),
             PostVote (Some ''10.0.0.1'') (JStr ''1'') (JStr ''down'')] [])
   \<and> votes mia_two_down = count_choice ''up'' (normalizeVotedIPs (votedIPs mia_two_down))
   \<and> dislikes mia_two_down = count_choice ''down'' (normalizeVotedIPs (votedIPs mia_two_down))"
proof -
  let ?reqs = "[PostName ''1'' (JStr ''Mia''),
                PostVote (Some ''10.0.0.1'') (JStr ''1'') (JStr ''up''),
                PostVote (Some ''10.0.0.2'') (JStr ''1'') (JStr ''down''),
                PostVote (Some ''10.0.0.1'') (JStr ''1'') (JStr ''down'')]"
  have h1: "\<forall>q \<in> set ?reqs. resolvable q \<and> plain_address q"
    by (simp add: clientIP_def)
  have h2: "mia_two_down \<in> set (serve ''2026'' ?reqs [])"
    by (simp add: serve_def add_name_def vote_def applyVote_def applyNewVote_def removeOldVote_def
      normalizeVotedIPs_def clientIP_def read_prop_def set_prop_def proto_keys_def too_long_def
      trim_def escape_angle_def is_ws_def mia_two_down_def Let_def)
  show ?thesis
    using h1 h2 ledger_invariant_resolvable [OF h1 h2] by simp
qed

section \<open>Votes from an unresolvable caller\<close>

lemma unknown_step:
  assumes "find (\<lambda>n. JStr (id_of n) = ident) names = Some r"
    and "truthy ident"
    and "clientIP req_ip = ''unknown''"
    and "c = ''up'' \<or> c = ''down''"
  shows "\<exists>r'. vote req_ip ident (JStr c) names =
               (Json 200 r', update_first (\<lambda>n. JStr (id_of n) = ident) (\<lambda>_. r') names)
           \<and> find (\<lambda>n. JStr (id_of n) = ident) (snd (vote req_ip ident (JStr c) names)) = Some r'
           \<and> votes r' = votes r + (if c = ''up'' then 1 else 0)
           \<and> dislikes r' = dislikes r + (if c = ''down'' then 1 else 0)"
proof -
  let ?r' = "applyVote ''unknown'' (JStr c) r"
  have idr: "JStr (id_of r) = ident" using assms(1) by (auto simp add: find_Some_iff)
  have v: "vote req_ip ident (JStr c) names =
      (Json 200 ?r', update_first (\<lambda>n. JStr (id_of n) = ident) (\<lambda>_. ?r') names)"
    using vote_found [OF assms(1,2), of "JStr c" req_ip] assms(3,4) by auto
  moreover have "find (\<lambda>n. JStr (id_of n) = ident)
      (update_first (\<lambda>n. JStr (id_of n) = ident) (\<lambda>_. ?r') names) = Some ?r'"
    using assms(1) idr by (intro find_update_first) auto
  ultimately show ?thesis
    by (simp add: votes_applyVote dislikes_applyVote)
qed

lemma unknown_repeat:
  assumes "find (\<lambda>n. JStr (id_of n) = ident) names = Some r"
    and "truthy ident"
    and "clientIP req_ip = ''unknown''"
    and "c = ''up'' \<or> c = ''down''"
  shows "\<exists>r'. find (\<lambda>n. JStr (id_of n) = ident)
             (((\<lambda>ns. snd (vote req_ip ident (JStr c) ns)) ^^ k) names) = Some r'
           \<and> votes r' = votes r + (if c = ''up'' then int k else 0)
           \<and> dislikes r' = dislikes r + (if c = ''down'' then int k else 0)"
proof (induction k)
  case 0
  then show ?case using assms(1) by simp
next
  case (Suc k)
  let ?ns = "((\<lambda>ns. snd (vote req_ip ident (JStr c) ns)) ^^ k) names"
  from Suc obtain r' where r': "find (\<lambda>n. JStr (id_of n) = ident) ?ns = Some r'"
     "votes r' = votes r + (if c = ''up'' then int k else 0)"
     "dislikes r' = dislikes r + (if c = ''down'' then int k else 0)" by blast
  from unknown_step [OF r'(1) assms(2,3,4)] obtain r'' where
    "find (\<lambda>n. JStr (id_of n) = ident) (snd (vote req_ip ident (JStr c) ?ns)) = Some r''"
    "votes r'' = votes r' + (if c = ''up'' then 1 else 0)"
    "dislikes r'' = dislikes r' + (if c = ''down'' then 1 else 0)" by blast
  then show ?case using r'(2,3) by simp
qed

text \<open>
  Claim C8. For every name record, a vote from a caller whose address cannot be
  resolved (identity \<^verbatim>\<open>unknown\<close>) is answered 200 and increments the counter of its
  choice by 1 with no decrement, whatever the ledger holds; hence \<open>k\<close> successive
  \<^verbatim>\<open>up\<close> (resp. \<^verbatim>\<open>down\<close>) votes raise \<open>votes\<close> (resp. \<open>dislikes\<close>) by
  \<open>k\<close>, for every \<open>k\<close>.
\<close>

theorem unknown_votes_unbounded:
  assumes "find (\<lambda>n. JStr (id_of n) = ident) names = Some r"
    and "truthy ident"
    and "clientIP req_ip = ''unknown''"
  shows "(\<exists>r'. vote req_ip ident (JStr ''up'') names =
               (Json 200 r', update_first (\<lambda>n. JStr (id_of n) = ident) (\<lambda>_. r') names)
            \<and> votes r' = votes r + 1 \<and> dislikes r' = dislikes r)
       \<and> (\<exists>r'. vote req_ip ident (JStr ''down'') names =
               (Json 200 r', update_first (\<lambda>n. JStr (id_of n) = ident) (\<lambda>_. r') names)
            \<and> votes r' = votes r \<and> dislikes r' = dislikes r + 1)
       \<and> (\<exists>r'. find (\<lambda>n. JStr (id_of n) = ident)
               (((\<lambda>ns. snd (vote req_ip ident (JStr ''up'') ns)) ^^ k) names) = Some r'
            \<and> votes r' = votes r + int k \<and> dislikes r' = dislikes r)
       \<and> (\<exists>r'. find (\<lambda>n. JStr (id_of n) = ident)
               (((\<lambda>ns. snd (vote req_ip ident (JStr ''down'') ns)) ^^ k) names) = Some r'
            \<and> votes r' = votes r \<and> dislikes r' = dislikes r + int k)"
proof -
  have a: "\<exists>r'. vote req_ip ident (JStr ''up'') names =
               (Json 200 r', update_first (\<lambda>n. JStr (id_of n) = ident) (\<lambda>_. r') names)
            \<and> votes r' = votes r + 1 \<and> dislikes r' = dislikes r"
    using unknown_step [OF assms, of "''up''"] by auto
  have b: "\<exists>r'. vote req_ip ident (JStr ''down'') names =
               (Json 200 r', update_first (\<lambda>n. JStr (id_of n) = ident) (\<lambda>_. r') names)
            \<and> votes r' = votes r \<and> dislikes r' = dislikes r + 1"
    using unknown_step [OF assms, of "''down''"] by auto
  have c: "\<exists>r'. find (\<lambda>n. JStr (id_of n) = ident)
               (((\<lambda>ns. snd (vote req_ip ident (JStr ''up'') ns)) ^^ k) names) = Some r'
            \<and> votes r' = votes r + int k \<and> dislikes r' = dislikes r"
    using unknown_repeat [OF assms, of "''up''" k] by auto
  have d: "\<exists>r'. find (\<lambda>n. JStr (id_of n) = ident)
               (((\<lambda>ns. snd (vote req_ip ident (JStr ''down'') ns)) ^^ k) names) = Some r'
            \<and> votes r' = votes r \<and> dislikes r' = dislikes r + int k"
    using unknown_repeat [OF assms, of "''down''" k] by auto
  show ?thesis using a b c d by blast
qed

theorem unknown_votes_unbounded_witness:
  "find (\<lambda>n. JStr (id_of n) = JStr ''1'') [mia_up] = Some mia_up
   \<and> truthy (JStr ''1'')
   \<and> clientIP None = ''unknown''
   \<and> (\<exists>r'. find (\<lambda>n. JStr (id_of n) = JStr ''1'')
               (((\<lambda>ns. snd (vote None (JStr ''1'') (JStr ''up'') ns)) ^^ 3) [mia_up]) = Some r'
            \<and> votes r' = 4 \<and> dislikes r' = 0)"
proof -
  have h1: "find (\<lambda>n. JStr (id_of n) = JStr ''1'') [mia_up] = Some mia_up"
    by (simp add: mia_up_def)
  have h2: "truthy (JStr ''1'')" by simp
  have h3: "clientIP None = ''unknown''" by (simp add: clientIP_def)
  have v: "votes mia_up = 1" "dislikes mia_up = 0" by (simp_all add: mia_up_def)
  show ?thesis
    using h1 h2 h3 unknown_votes_unbounded [OF h1 h2 h3, of 3] v by simp
qed

section \<open>A repeated vote of the same choice\<close>

text \<open>
  Claim C1, as stated, fails on the current handler: it has no 403 reply. A second
  \<^verbatim>\<open>up\<close> vote from the address that is already recorded with \<^verbatim>\<open>up\<close> is answered
  with status 200.
\<close>

theorem duplicate_vote_counterexample:
  "vote (Some ''10.0.0.1'') (JStr ''1'') (JStr ''up'') [mia_up] = (Json 200 mia_up, [mia_up])
   \<and> status (fst (vote (Some ''10.0.0.1'') (JStr ''1'') (JStr ''up'') [mia_up])) \<noteq> 403"
  by (simp add: vote_def applyVote_def applyNewVote_def removeOldVote_def
      clientIP_def read_prop_def set_prop_def mia_up_def Let_def)

text \<open>
  Claim C1, amended. For every name record and every resolvable voter identity whose
  ledger entry (after normalization) is the choice \<open>c\<close>, \<^verbatim>\<open>up\<close> or \<^verbatim>\<open>down\<close>, a
  second vote request of the same choice is answered by the current handler with status
  200, and leaves the votes and dislikes counters and the ledger's content unchanged,
  provided the counter matching \<open>c\<close> is at least 1.
\<close>

theorem duplicate_vote_accepted:
  assumes "find (\<lambda>n. JStr (id_of n) = ident) names = Some r"
    and "truthy ident"
    and "c = ''up'' \<or> c = ''down''"
    and "clientIP req_ip \<noteq> ''unknown''"
    and "map_of (normalizeVotedIPs (votedIPs r)) (clientIP req_ip) = Some (JStr c)"
    and "1 \<le> (if c = ''up'' then votes r else dislikes r)"
  shows "\<exists>r'. vote req_ip ident (JStr c) names =
               (Json 200 r', update_first (\<lambda>n. JStr (id_of n) = ident) (\<lambda>_. r') names)
          \<and> votes r' = votes r \<and> dislikes r' = dislikes r
          \<and> map_of (normalizeVotedIPs (votedIPs r')) = map_of (normalizeVotedIPs (votedIPs r))"
proof -
  let ?r' = "applyVote (clientIP req_ip) (JStr c) r"
  have "vote req_ip ident (JStr c) names =
      (Json 200 ?r', update_first (\<lambda>n. JStr (id_of n) = ident) (\<lambda>_. ?r') names)"
    using vote_found [OF assms(1,2), of "JStr c" req_ip] assms(3) by auto
  moreover have "votes ?r' = votes r" "dislikes ?r' = dislikes r"
    using assms(3,4,5,6) by (auto simp add: votes_applyVote dislikes_applyVote)
  moreover have "normalizeVotedIPs (votedIPs ?r') = normalizeVotedIPs (votedIPs r)"
    using assms(3,5) by (auto simp add: votedIPs_applyVote set_prop_own update_triv)
  ultimately show ?thesis by simp
qed

theorem duplicate_vote_accepted_witness:
  "find (\<lambda>n. JStr (id_of n) = JStr ''1'') [mia_up] = Some mia_up
   \<and> truthy (JStr ''1'')
   \<and> clientIP (Some ''10.0.0.1'') \<noteq> ''unknown''
   \<and> map_of (normalizeVotedIPs (votedIPs mia_up)) (clientIP (Some ''10.0.0.1'')) = Some (JStr ''up'')
   \<and> 1 \<le> votes mia_up
   \<and> (\<exists>r'. vote (Some ''10.0.0.1'') (JStr ''1'') (JStr ''up'') [mia_up] =
               (Json 200 r', update_first (\<lambda>n. JStr (id_of n) = JStr ''1'') (\<lambda>_. r') [mia_up])
          \<and> votes r' = votes mia_up \<and> dislikes r' = dislikes mia_up)"
proof -
  have h1: "find (\<lambda>n. JStr (id_of n) = JStr ''1'') [mia_up] = Some mia_up"
    by (simp add: mia_up_def)
  have h2: "truthy (JStr ''1'')" by simp
  have h3: "''up'' = ''up'' \<or> ''up'' = ''down''" by simp
  have h4: "clientIP (Some ''10.0.0.1'') \<noteq> ''unknown''" by (simp add: clientIP_def)
  have h5: "map_of (normalizeVotedIPs (votedIPs mia_up)) (clientIP (Some ''10.0.0.1'')) = Some (JStr ''up'')"
    by (simp add: clientIP_def mia_up_def)
  have h6: "1 \<le> (if ''up'' = ''up'' then votes mia_up else dislikes mia_up)"
    by (simp add: mia_up_def)
  have h6': "1 \<le> votes mia_up" by (simp add: mia_up_def)
  show ?thesis
    using h1 h2 h4 h5 h6' duplicate_vote_accepted [OF h1 h2 h3 h4 h5 h6] by blast
qed

text \<open>The earlier handler is the one that rejects a second vote, of any type, with 403.\<close>

lemma vote_legacy_duplicate:
  assumes "find (\<lambda>n. JStr (id_of n) = ident) names = Some r"
    and "truthy ident"
    and "votedIPs r = Legacy ips"
    and "clientIP_legacy cf req_ip \<noteq> ''unknown''"
    and "clientIP_legacy cf req_ip \<in> set ips"
  shows "vote_legacy cf req_ip ident type names =
           (Fail 403 ''You have already voted for this name.'', names)"
  using assms by (simp add: vote_legacy_def Let_def)

section \<open>Up, then down, then none\<close>

lemma update_first_twice:
  "P y \<Longrightarrow> update_first P (\<lambda>_. z) (update_first P (\<lambda>_. y) xs) = update_first P (\<lambda>_. z) xs"
  by (induction xs) auto

text \<open>
  Claim C5, as stated, fails at the second step: the \<^verbatim>\<open>down\<close> vote of a voter
  recorded with \<^verbatim>\<open>up\<close> takes 1 from \<open>votes\<close> and adds 1 to \<open>dislikes\<close>, so both
  counters change.
\<close>

theorem up_down_none_counterexample:
  "vote (Some ''10.0.0.1'') (JStr ''1'') (JStr ''up'') [mia_empty] = (Json 200 mia_up, [mia_up])
   \<and> vote (Some ''10.0.0.1'') (JStr ''1'') (JStr ''down'') [mia_up] = (Json 200 mia_down, [mia_down])
   \<and> votes mia_down \<noteq> votes mia_up \<and> dislikes mia_down \<noteq> dislikes mia_up"
  by (simp add: vote_def applyVote_def applyNewVote_def removeOldVote_def
      clientIP_def read_prop_def set_prop_def proto_keys_def
      mia_empty_def mia_up_def mia_down_def Let_def)

text \<open>
  Claim C5, amended. For every name record with a mapping ledger and counters that are
  not negative, and a resolvable voter A other than the key \<^verbatim>\<open>__proto__\<close> without an
  entry, the requests \<^verbatim>\<open>up\<close>, \<^verbatim>\<open>down\<close>, \<^verbatim>\<open>none\<close> from A are each answered 200;
  the first adds 1 to \<open>votes\<close> and leaves \<open>dislikes\<close>, the second takes 1 from
  \<open>votes\<close> and adds 1 to \<open>dislikes\<close>, the third takes 1 from \<open>dislikes\<close> and
  leaves \<open>votes\<close>; the record and the names file are then exactly what they were, with
  A absent from the ledger. Nothing is stated for the voter \<^verbatim>\<open>__proto__\<close>, whose
  entry the handler fails to store.
\<close>

theorem up_down_none_sequence:
  assumes "find (\<lambda>n. JStr (id_of n) = ident) names = Some r"
    and "truthy ident"
    and "votedIPs r = Mapping m"
    and "map_of m (clientIP req_ip) = None"
    and "clientIP req_ip \<noteq> ''unknown''"
    and "clientIP req_ip \<noteq> ''__proto__''"
    and "0 \<le> votes r" and "0 \<le> dislikes r"
  shows "\<exists>r1 ns1 r2 ns2.
           vote req_ip ident (JStr ''up'') names = (Json 200 r1, ns1)
         \<and> votes r1 = votes r + 1 \<and> dislikes r1 = dislikes r
         \<and> vote req_ip ident (JStr ''down'') ns1 = (Json 200 r2, ns2)
         \<and> votes r2 = votes r1 - 1 \<and> dislikes r2 = dislikes r1 + 1
         \<and> vote req_ip ident (JStr ''none'') ns2 = (Json 200 r, names)
         \<and> votes r = votes r2 \<and> dislikes r = dislikes r2 - 1
         \<and> map_of (normalizeVotedIPs (votedIPs r)) (clientIP req_ip) = None"
proof -
  let ?P = "\<lambda>n. JStr (id_of n) = ident"
  let ?ip = "clientIP req_ip"
  define r1 where "r1 = applyVote ?ip (JStr ''up'') r"
  define r2 where "r2 = applyVote ?ip (JStr ''down'') r1"
  define ns1 where "ns1 = update_first ?P (\<lambda>_. r1) names"
  define ns2 where "ns2 = update_first ?P (\<lambda>_. r2) ns1"
  have idr: "?P r" using assms(1) by (auto simp add: find_Some_iff)
  then have id1: "?P r1" and id2: "?P r2" by (simp_all add: r1_def r2_def)
  have s1: "vote req_ip ident (JStr ''up'') names = (Json 200 r1, ns1)"
    using vote_found [OF assms(1,2), of "JStr ''up''" req_ip] by (simp add: r1_def ns1_def)
  have f1: "find ?P ns1 = Some r1"
    unfolding ns1_def using assms(1) id1 by (rule find_update_first)
  have s2: "vote req_ip ident (JStr ''down'') ns1 = (Json 200 r2, ns2)"
    using vote_found [OF f1 assms(2), of "JStr ''down''" req_ip] by (simp add: r2_def ns2_def)
  have f2: "find ?P ns2 = Some r2"
    unfolding ns2_def using f1 id2 by (rule find_update_first)
  have l1: "votedIPs r1 = Mapping (AList.update ?ip (JStr ''up'') m)"
    using assms(3,6) by (simp add: r1_def votedIPs_applyVote set_prop_plain)
  have v1: "votes r1 = votes r + 1" "dislikes r1 = dislikes r"
    using assms(3,4) by (simp_all add: r1_def votes_applyVote dislikes_applyVote)
  have l2: "votedIPs r2 = Mapping (AList.update ?ip (JStr ''down'') m)"
    using l1 assms(6) by (simp add: r2_def votedIPs_applyVote set_prop_plain)
  have v2: "votes r2 = votes r" "dislikes r2 = dislikes r + 1"
    using assms(5,7) l1 v1
    by (simp_all add: r2_def votes_applyVote dislikes_applyVote update_conv')
  have l3: "votedIPs (applyVote ?ip (JStr ''none'') r2) = votedIPs r"
    using l2 assms(3,4) by (simp add: votedIPs_applyVote delete_update_same delete_absent)
  have v3: "votes (applyVote ?ip (JStr ''none'') r2) = votes r"
     "dislikes (applyVote ?ip (JStr ''none'') r2) = dislikes r"
    using assms(5,8) l2 v2
    by (simp_all add: votes_applyVote dislikes_applyVote update_conv')
  have r3: "applyVote ?ip (JStr ''none'') r2 = r"
    using l3 v3 by (simp add: r2_def r1_def)
  have "update_first ?P (\<lambda>_. r) ns2 = names"
    using id1 id2 assms(1) by (simp add: ns2_def ns1_def update_first_twice update_first_same)
  then have s3: "vote req_ip ident (JStr ''none'') ns2 = (Json 200 r, names)"
    using vote_found [OF f2 assms(2), of "JStr ''none''" req_ip] r3 by simp
  show ?thesis
    using s1 s2 s3 v1 v2 assms(3,4) by simp
qed

theorem up_down_none_sequence_witness:
  "find (\<lambda>n. JStr (id_of n) = JStr ''1'') [mia_empty] = Some mia_empty
   \<and> truthy (JStr ''1'')
   \<and> votedIPs mia_empty = Mapping []
   \<and> map_of [] (clientIP (Some ''10.0.0.1'')) = None
   \<and> clientIP (Some ''10.0.0.1'') \<noteq> ''unknown''
   \<and> clientIP (Some ''10.0.0.1'') \<noteq> ''__proto__''
   \<and> 0 \<le> votes mia_empty \<and> 0 \<le> dislikes mia_empty
   \<and> (\<exists>r1 ns1 r2 ns2.
           vote (Some ''10.0.0.1'') (JStr ''1'') (JStr ''up'') [mia_empty] = (Json 200 r1, ns1)
         \<and> votes r1 = votes mia_empty + 1 \<and> dislikes r1 = dislikes mia_empty
         \<and> vote (Some ''10.0.0.1'') (JStr ''1'') (JStr ''down'') ns1 = (Json 200 r2, ns2)
         \<and> votes r2 = votes r1 - 1 \<and> dislikes r2 = dislikes r1 + 1
         \<and> vote (Some ''10.0.0.1'') (JStr ''1'') (JStr ''none'') ns2 = (Json 200 mia_empty, [mia_empty]))"
proof -
  have h1: "find (\<lambda>n. JStr (id_of n) = JStr ''1'') [mia_empty] = Some mia_empty"
    by (simp add: mia_empty_def)
  have h2: "truthy (JStr ''1'')" by simp
  have h3: "votedIPs mia_empty = Mapping []" by (simp add: mia_empty_def)
  have h4: "map_of [] (clientIP (Some ''10.0.0.1'')) = None" by simp
  have h5: "clientIP (Some ''10.0.0.1'') \<noteq> ''unknown''" by (simp add: clientIP_def)
  have h6: "clientIP (Some ''10.0.0.1'') \<noteq> ''__proto__''" by (simp add: clientIP_def)
  have h7: "0 \<le> votes mia_empty" by (simp add: mia_empty_def)
  have h8: "0 \<le> dislikes mia_empty" by (simp add: mia_empty_def)
  show ?thesis
    using h1 h2 h3 h4 h5 h6 h7 h8 up_down_none_sequence [OF h1 h2 h3 h4 h5 h6 h7 h8] by blast
qed

section \<open>Conversion of an array ledger\<close>

lemma distinct_set_prop:
  "distinct (map fst m) \<Longrightarrow> distinct (map fst (set_prop k v m))"
  by (simp add: set_prop_def distinct_update)

lemma map_of_set_prop:
  "map_of (set_prop k v m) k' =
     (if k' = k \<and> (k \<noteq> ''__proto__'' \<or> map_of m k \<noteq> None) then Some v else map_of m k')"
  by (auto simp add: set_prop_def update_conv')

lemma distinct_fold_set_prop:
  "distinct (map fst m0) \<Longrightarrow>
   distinct (map fst (fold (\<lambda>ip legacyMap. set_prop ip v legacyMap) ips m0))"
  by (induction ips arbitrary: m0) (simp_all add: distinct_set_prop)

lemma map_of_fold_set_prop:
  "map_of m0 ''__proto__'' = None \<Longrightarrow>
   map_of (fold (\<lambda>ip legacyMap. set_prop ip v legacyMap) ips m0) k =
     (if k \<in> set ips \<and> k \<noteq> ''__proto__'' then Some v else map_of m0 k)"
proof (induction ips arbitrary: m0)
  case Nil
  then show ?case by simp
next
  case (Cons ip ips)
  have "map_of (set_prop ip v m0) ''__proto__'' = None"
    using Cons.prems by (simp add: map_of_set_prop)
  from Cons.IH [OF this] show ?case
    using Cons.prems by (auto simp add: map_of_set_prop)
qed

text \<open>
  The conversion records \<^verbatim>\<open>up\<close> for every array element except the element
  \<^verbatim>\<open>__proto__\<close>, for which the assignment stores nothing.
\<close>

lemma map_of_normalize_Legacy:
  "map_of (normalizeVotedIPs (Legacy ips)) k =
     (if k \<in> set ips \<and> k \<noteq> ''__proto__'' then Some (JStr ''up'') else None)"
  by (simp add: normalizeVotedIPs_def map_of_fold_set_prop)

lemma distinct_normalize: "distinct (map fst (normalizeVotedIPs (Legacy ips)))"
  by (simp add: normalizeVotedIPs_def distinct_fold_set_prop)

lemma normalize_Missing [simp]: "normalizeVotedIPs Missing = []"
  by (simp add: normalizeVotedIPs_def)

text \<open>
  For an array without the element \<^verbatim>\<open>__proto__\<close> and a voter other than that key,
  a valid vote request converts the ledger of the record it finds to the mapping with
  every array element at \<^verbatim>\<open>up\<close> (an absent ledger to the empty mapping), applies the
  vote to it, and stores the record where the old one stood.
\<close>

lemma legacy_ledger_converted_plain:
  assumes "find (\<lambda>n. JStr (id_of n) = ident) names = Some r"
    and "truthy ident"
    and "type \<in> {JStr ''up'', JStr ''down'', JStr ''none''}"
    and "votedIPs r = Legacy ips \<or> votedIPs r = Missing"
    and "''__proto__'' \<notin> set ips"
    and "clientIP req_ip \<noteq> ''__proto__''"
  shows "\<exists>m0 r' m'.
            normalizeVotedIPs (votedIPs r) = m0
          \<and> distinct (map fst m0)
          \<and> (\<forall>ip. map_of m0 ip =
                (if votedIPs r = Legacy ips \<and> ip \<in> set ips then Some (JStr ''up'') else None))
          \<and> (votedIPs r = Missing \<longrightarrow> m0 = [])
          \<and> vote req_ip ident type names =
                (Json 200 r',
                 takeWhile (\<lambda>n. JStr (id_of n) \<noteq> ident) names
                   @ r' # tl (dropWhile (\<lambda>n. JStr (id_of n) \<noteq> ident) names))
          \<and> r' = applyVote (clientIP req_ip) type (r\<lparr>votedIPs := Mapping m0\<rparr>)
          \<and> votedIPs r' = Mapping m'
          \<and> (\<forall>ip. map_of m' ip =
                (if ip = clientIP req_ip then (if type = JStr ''none'' then None else Some type)
                 else if votedIPs r = Legacy ips \<and> ip \<in> set ips then Some (JStr ''up'')
                 else None))"
proof -
  let ?m = "normalizeVotedIPs (votedIPs r)"
  let ?r' = "applyVote (clientIP req_ip) type r"
  let ?m' = "if type = JStr ''none'' then AList.delete (clientIP req_ip) ?m
             else AList.update (clientIP req_ip) type ?m"
  have m: "\<forall>ip. map_of ?m ip =
      (if votedIPs r = Legacy ips \<and> ip \<in> set ips then Some (JStr ''up'') else None)"
    using assms(4,5) by (auto simp add: map_of_normalize_Legacy)
  have d: "distinct (map fst ?m)"
    using assms(4) by (auto simp add: distinct_normalize)
  have e: "votedIPs r = Missing \<longrightarrow> ?m = []"
    by simp
  have v: "vote req_ip ident type names =
      (Json 200 ?r',
       takeWhile (\<lambda>n. JStr (id_of n) \<noteq> ident) names
         @ ?r' # tl (dropWhile (\<lambda>n. JStr (id_of n) \<noteq> ident) names))"
    using vote_found [OF assms(1,2,3), of req_ip] update_first_decomp [OF assms(1)] by simp
  have c: "?r' = applyVote (clientIP req_ip) type (r\<lparr>votedIPs := Mapping ?m\<rparr>)"
    by (simp add: applyVote_def applyNewVote_def removeOldVote_def Let_def)
  have l: "votedIPs ?r' = Mapping ?m'"
    using assms(6) by (simp add: votedIPs_applyVote set_prop_plain)
  have m': "\<forall>ip. map_of ?m' ip =
                (if ip = clientIP req_ip then (if type = JStr ''none'' then None else Some type)
                 else if votedIPs r = Legacy ips \<and> ip \<in> set ips then Some (JStr ''up'')
                 else None)"
    using m by (simp add: update_conv' delete_conv')
  show ?thesis
    using d m e v c l m' by blast
qed

text \<open>
  Claim C6 fails on the code for an array ledger that holds the element
  \<^verbatim>\<open>__proto__\<close> (the earlier handler pushes the client address it is given): the
  conversion is to map every legacy entry to \<^verbatim>\<open>up\<close>, while the assignment
  \<^verbatim>\<open>legacyMap[ip] = 'up'\<close> stores nothing for that element. A \<^verbatim>\<open>down\<close> vote from
  a new address on the second record of the file is answered 200 and the record is
  stored in place with a mapping ledger that has the other legacy entry at \<^verbatim>\<open>up\<close>,
  the voter at \<^verbatim>\<open>down\<close>, and no entry for the legacy element \<^verbatim>\<open>__proto__\<close>.
\<close>

theorem legacy_proto_entry_lost:
  "votedIPs mia_legacy_proto = Legacy [''__proto__'', ''10.0.0.2'']
   \<and> normalizeVotedIPs (Legacy [''__proto__'', ''10.0.0.2'']) = [(''10.0.0.2'', JStr ''up'')]
   \<and> vote (Some ''10.0.0.3'') (JStr ''1'') (JStr ''down'') [sam, mia_legacy_proto]
        = (Json 200 mia_converted, [sam, mia_converted])
   \<and> votedIPs mia_converted = Mapping [(''10.0.0.2'', JStr ''up''), (''10.0.0.3'', JStr ''down'')]
   \<and> map_of [(''10.0.0.2'', JStr ''up''), (''10.0.0.3'', JStr ''down'')] ''__proto__'' = None"
  by (simp add: vote_def applyVote_def applyNewVote_def removeOldVote_def normalizeVotedIPs_def
      read_prop_def set_prop_def proto_keys_def clientIP_def
      sam_def mia_legacy_proto_def mia_converted_def Let_def)

theorem legacy_proto_entry_lost_witness:
  "truthy (JStr ''1'')
   \<and> ''__proto__'' \<in> set [''__proto__'', ''10.0.0.2'']
   \<and> snd (vote (Some ''10.0.0.3'') (JStr ''1'') (JStr ''down'') [sam, mia_legacy_proto])
        = [sam, mia_converted]
   \<and> map_of (normalizeVotedIPs (votedIPs mia_converted)) ''__proto__'' \<noteq> Some (JStr ''up'')"
  using legacy_proto_entry_lost by simp

section \<open>The offers listing\<close>

lemma distinct_spread_aux:
  "distinct (map fst acc) \<Longrightarrow>
   distinct (map fst (fold (\<lambda>(k, v) copy. AList.update k v copy) ob acc))"
  by (induction ob arbitrary: acc) (auto simp add: distinct_update)

lemma distinct_spread: "distinct (map fst (spread ob))"
  by (simp add: spread_def distinct_spread_aux)

lemma spread_aux_id:
  "distinct (map fst (acc @ ob)) \<Longrightarrow>
   fold (\<lambda>(k, v) copy. AList.update k v copy) ob acc = acc @ ob"
proof (induction ob arbitrary: acc)
  case Nil
  then show ?case by simp
next
  case (Cons p ob)
  obtain k v where p: "p = (k, v)" by (cases p)
  have "k \<notin> fst ` set acc" using Cons.prems p by auto
  then have "AList.update k v acc = acc @ [(k, v)]"
    by (induction acc) auto
  then show ?case using Cons.IH [of "acc @ [(k, v)]"] Cons.prems p by simp
qed

lemma spread_id: "distinct (map fst ob) \<Longrightarrow> spread ob = ob"
  using spread_aux_id [of "[]" ob] by (simp add: spread_def)

lemma email_not_emitted:
  "''email'' \<notin> fst ` set (stringify_obj (AList.update ''email'' JUndefined (spread ob)))"
proof
  let ?ob' = "AList.update ''email'' JUndefined (spread ob)"
  assume "''email'' \<in> fst ` set (stringify_obj ?ob')"
  then obtain v where v: "(''email'', v) \<in> set ?ob'" "v \<noteq> JUndefined"
    by (auto simp add: stringify_obj_def)
  have "distinct (map fst ?ob')"
    by (simp add: distinct_update distinct_spread)
  then have "map_of ?ob' ''email'' = Some v"
    using v(1) by simp
  then show False using v(2) by (simp add: update_conv')
qed

lemma stringify_obj_json:
  "\<forall>v \<in> snd ` set ob. v \<noteq> JUndefined \<and> v \<noteq> JNaN \<Longrightarrow> stringify_obj ob = ob"
  by (induction ob) (auto simp add: stringify_obj_def stringify_val_def)

lemma stringify_list_json:
  "\<forall>ob \<in> set obs. \<forall>v \<in> snd ` set ob. v \<noteq> JUndefined \<and> v \<noteq> JNaN \<Longrightarrow> stringify_list obs = obs"
  by (induction obs) (simp_all add: stringify_list_def stringify_obj_json)

text \<open>
  Claim C7. For every stored offers list, the listing sent to a request without the
  correct secret has one object per record and none of them has an \<^verbatim>\<open>email\<close>
  key, whatever the record holds; with the correct secret the reply is the stored list,
  and it is sent verbatim (the stored values being JSON values).
\<close>

theorem offers_email_visibility:
  "(pin \<noteq> Some ADMIN_PIN \<longrightarrow>
      status (get_offers ADMIN_PIN pin offers) = 200
      \<and> length (emitted (get_offers ADMIN_PIN pin offers)) = length offers
      \<and> (\<forall>ob \<in> set (emitted (get_offers ADMIN_PIN pin offers)). ''email'' \<notin> fst ` set ob))
   \<and> (pin = Some ADMIN_PIN \<longrightarrow>
      get_offers ADMIN_PIN pin offers = Json 200 offers
      \<and> ((\<forall>ob \<in> set offers. \<forall>v \<in> snd ` set ob. v \<noteq> JUndefined \<and> v \<noteq> JNaN) \<longrightarrow>
           emitted (get_offers ADMIN_PIN pin offers) = offers))"
proof -
  have "\<forall>ob \<in> set (stringify_list (map (\<lambda>o'. AList.update ''email'' JUndefined (spread o')) offers)).
          ''email'' \<notin> fst ` set ob"
    using email_not_emitted by (auto simp add: stringify_list_def)
  then show ?thesis
    by (simp add: get_offers_def stringify_list_json) (simp add: stringify_list_def)
qed

theorem offers_email_visibility_witness:
  "None \<noteq> Some ''2026''
   \<and> emitted (get_offers ''2026'' None [offer_a]) = [offer_a_public]
   \<and> ''email'' \<notin> fst ` set offer_a_public
   \<and> JUndefined \<notin> snd ` set offer_a \<and> JNaN \<notin> snd ` set offer_a
   \<and> emitted (get_offers ''2026'' (Some ''2026'') [offer_a]) = [offer_a]"
proof -
  have e: "emitted (get_offers ''2026'' None [offer_a]) = [offer_a_public]"
    by (simp add: get_offers_def spread_def stringify_list_def stringify_obj_def stringify_val_def
        offer_a_def offer_a_public_def)
  have u: "JUndefined \<notin> snd ` set offer_a" "JNaN \<notin> snd ` set offer_a"
    by (simp_all add: offer_a_def)
  have j: "\<forall>ob \<in> set [offer_a]. \<forall>v \<in> snd ` set ob. v \<noteq> JUndefined \<and> v \<noteq> JNaN"
    by (simp add: offer_a_def)
  have n: "None \<noteq> Some ''2026''" by simp
  have "\<forall>ob \<in> set (emitted (get_offers ''2026'' None [offer_a])). ''email'' \<notin> fst ` set ob"
    using offers_email_visibility [of None "''2026''" "[offer_a]"] n by blast
  then have pub: "''email'' \<notin> fst ` set offer_a_public"
    using e by simp
  have adm: "emitted (get_offers ''2026'' (Some ''2026'') [offer_a]) = [offer_a]"
    using offers_email_visibility [of "Some ''2026''" "''2026''" "[offer_a]"] j by blast
  show ?thesis
    using e u n pub adm by blast
qed

section \<open>Deleting an absent id\<close>

lemma delete_name_absent:
  assumes "ident \<notin> id_of ` set names"
  shows "delete_name ADMIN_PIN (Some ADMIN_PIN) ident names = (Json 200 success, names)"
proof -
  have "filter (\<lambda>n. id_of n \<noteq> ident) names = names"
    using assms by (intro filter_True) auto
  then show ?thesis by (simp add: delete_name_def)
qed

lemma delete_wishlist_absent:
  assumes "\<forall>i \<in> set list. get_prop i ''id'' \<noteq> JStr ident"
  shows "delete_wishlist ADMIN_PIN (Some ADMIN_PIN) ident list = (Fail 404 ''Not found'', list)"
  using assms by (simp add: delete_wishlist_def)

lemma delete_bet_absent:
  assumes "\<forall>b \<in> set list. get_prop b ''id'' \<noteq> JStr ident"
  shows "delete_bet ADMIN_PIN (Some ADMIN_PIN) ident list = (Fail 404 ''Not found'', list)"
  using assms by (simp add: delete_bet_def)

lemma delete_offer_absent:
  assumes "\<forall>ob \<in> set list. get_prop ob ''id'' \<noteq> JStr ident"
  shows "delete_offer unlinkImage ADMIN_PIN (Some ADMIN_PIN) ident (list, uploads)
           = (Fail 404 ''Not found'', list, uploads)"
proof -
  have "find (\<lambda>o'. get_prop o' ''id'' = JStr ident) list = None"
    using assms by (simp add: find_None_iff)
  then show ?thesis by (simp add: delete_offer_def)
qed

text \<open>
  Claim C4 holds for the wishlist, the bets and the offers (lemmas above) and fails for
  the names: \<^verbatim>\<open>DELETE /api/names/:id\<close> has no not-found check, and answers 200 for an
  id that no record has. The stored list is unchanged.
\<close>

theorem delete_name_absent_200:
  "''999'' \<notin> id_of ` set [mia_up]
   \<and> delete_name ''2026'' (Some ''2026'') ''999'' [mia_up] = (Json 200 success, [mia_up])
   \<and> status (fst (delete_name ''2026'' (Some ''2026'') ''999'' [mia_up])) \<noteq> 404"
  by (simp add: delete_name_def mia_up_def)

section \<open>Bet creation\<close>

lemma parseInt_examples:
  "parseInt (JNum 3500) = JNum 3500"
  "parseInt (JStr ''50'') = JNum 50"
  "parseInt (JStr '' -0x1Fzz'') = JNum (- 31)"
  "parseInt (JStr ''abc'') = JNaN"
  "parseInt (JBool True) = JNaN"
  by (simp_all add: parseInt_def is_ws_def is_digit_def digit_value_def digits_value_def
      digits.simps)

text \<open>
  Claim C9 fails on the code: an accepted body whose \<^verbatim>\<open>weight\<close> is a string without
  leading digits is answered 201 with \<^verbatim>\<open>weight\<close> equal to \<^verbatim>\<open>NaN\<close>, sent and stored
  as \<^verbatim>\<open>null\<close>.
\<close>

theorem add_bet_non_numeric_weight:
  "add_bet ''1767225600000'' ''2026-01-01T00:00:00.000Z'' bet_body [] =
     (Json 201 [(''id'', JStr ''1767225600000''), (''name'', JStr ''TestBet''),
                (''date'', JStr ''2026-08-20''), (''time'', JStr ''12:00''),
                (''weight'', JNaN), (''size'', JNum 50),
                (''timestamp'', JStr ''2026-01-01T00:00:00.000Z'')],
      [[(''id'', JStr ''1767225600000''), (''name'', JStr ''TestBet''),
        (''date'', JStr ''2026-08-20''), (''time'', JStr ''12:00''),
        (''weight'', JNull), (''size'', JNum 50),
        (''timestamp'', JStr ''2026-01-01T00:00:00.000Z'')]])
   \<and> \<not> is_integer JNaN \<and> \<not> is_integer JNull"
  by (simp add: add_bet_def bet_body_def get_prop_def too_long_def or_else_def
      trim_def escape_angle_def is_ws_def
      parseInt_def is_digit_def digit_value_def digits_value_def
      stringify_list_def stringify_obj_def stringify_val_def Let_def)

theorem add_bet_non_numeric_weight_witness:
  "truthy (get_prop bet_body ''name'') \<and> truthy (get_prop bet_body ''date'')
   \<and> truthy (get_prop bet_body ''weight'') \<and> truthy (get_prop bet_body ''size'')
   \<and> \<not> too_long (get_prop bet_body ''name'') 50
   \<and> status (fst (add_bet ''1767225600000'' ''2026-01-01T00:00:00.000Z'' bet_body [])) = 201"
  using add_bet_non_numeric_weight by (simp add: bet_body_def get_prop_def too_long_def)

end
